theory Spec2Isabelle
  imports Main "HOL-Library.Sublist"
begin

section \<open>Strings and numbers of the handler\<close>

text \<open>
  The handler \<^verbatim>\<open>ScriptCreate.handle\<close> works on JavaScript strings. A string is modelled as a
  \<^typ>\<open>string\<close>, each \<^typ>\<open>char\<close> read as one code unit in the range 0x00..0xFF. The
  white space class \<^verbatim>\<open>\s\<close> of a regular expression (and of \<^verbatim>\<open>trim\<close>) has seven code units in
  that range; its other members (U+1680, U+2000..U+200A, U+2028, U+2029, U+202F, U+205F,
  U+3000, U+FEFF) lie outside the type.
\<close>

definition is_space :: "char \<Rightarrow> bool" where
  "is_space c = (of_char c \<in> {9, 10, 11, 12, 13, 32, 160 :: nat})"

text \<open>\<^verbatim>\<open>s.replace(/\s+/g, "-")\<close>: every maximal run of white space becomes one hyphen.\<close>

function replace_ws :: "string \<Rightarrow> string" where
  "replace_ws [] = []"
| "replace_ws (c # cs) =
     (if is_space c then CHR ''-'' # replace_ws (dropWhile is_space cs)
      else c # replace_ws cs)"
  by pat_completeness auto
termination
  by (relation "measure length") (auto simp: length_dropWhile_le less_Suc_eq_le)

text \<open>\<^verbatim>\<open>s.trim()\<close>: white space removed at both ends.\<close>

definition trim :: "string \<Rightarrow> string" where
  "trim s = rev (dropWhile is_space (rev (dropWhile is_space s)))"

text \<open>
  A non-negative integer inside a template literal is printed in decimal, without leading
  zeros. \<^verbatim>\<open>Date.now()\<close> is such a number (milliseconds since the epoch).
\<close>

definition digit :: "nat \<Rightarrow> char" where
  "digit d = ''0123456789'' ! d"

function show_nat :: "nat \<Rightarrow> string" where
  "show_nat n = (if n < 10 then [digit n] else show_nat (n div 10) @ [digit (n mod 10)])"
  by pat_completeness auto
termination
  by (relation "measure id") auto

declare show_nat.simps [simp del]

text \<open>Reading a decimal numeral back, used to state that the printed timestamp is exact.\<close>

definition digit_val :: "char \<Rightarrow> nat" where
  "digit_val c = of_char c - 48"

definition read_nat :: "string \<Rightarrow> nat" where
  "read_nat s = foldl (\<lambda>a c. 10 * a + digit_val c) 0 s"

text \<open>
  Line 149: \<^verbatim>\<open>`generated/${Date.now()}-${name.replace(/\s+/g, "-")}.ssml`\<close>.
\<close>

definition r2_file_link :: "nat \<Rightarrow> string \<Rightarrow> string" where
  "r2_file_link now name =
     ''generated/'' @ show_nat now @ ''-'' @ replace_ws name @ ''.ssml''"

text \<open>
  \<^verbatim>\<open>JSON.stringify\<close> of an array of strings (line 158): the quoted elements, separated by
  commas, in brackets. Inside a string the quote, the backslash and the control characters
  are escaped.
\<close>

definition hex_digit :: "nat \<Rightarrow> char" where
  "hex_digit d = ''0123456789abcdef'' ! d"

definition json_escape :: "char \<Rightarrow> string" where
  "json_escape c =
     (if c = CHR 0x08 then [CHR 0x5C, CHR ''b'']
      else if c = CHR 0x09 then [CHR 0x5C, CHR ''t'']
      else if c = CHR 0x0A then [CHR 0x5C, CHR ''n'']
      else if c = CHR 0x0C then [CHR 0x5C, CHR ''f'']
      else if c = CHR 0x0D then [CHR 0x5C, CHR ''r'']
      else if c = CHR 0x22 then [CHR 0x5C, CHR 0x22]
      else if c = CHR 0x5C then [CHR 0x5C, CHR 0x5C]
      else if (of_char c :: nat) < 32
        then [CHR 0x5C, CHR ''u'', CHR ''0'', CHR ''0'',
              hex_digit (of_char c div 16), hex_digit (of_char c mod 16)]
      else [c])"

definition json_string :: "string \<Rightarrow> string" where
  "json_string s = [CHR 0x22] @ concat (map json_escape s) @ [CHR 0x22]"

fun join :: "string \<Rightarrow> string list \<Rightarrow> string" where
  "join sep [] = []"
| "join sep [x] = x"
| "join sep (x # y # ys) = x @ sep @ join sep (y # ys)"

definition JSON_stringify :: "string list \<Rightarrow> string" where
  "JSON_stringify xs = ''['' @ join '','' (map json_string xs) @ '']''"

section \<open>The two stores, the model service and the calls made to them\<close>

text \<open>A row of the table \<^verbatim>\<open>scripts\<close>, as the \<^verbatim>\<open>RETURNING\<close> clause of the insert lists it.\<close>

record script =
  script_id :: nat
  script_name :: string
  script_r2_file_link :: string
  script_created_at :: string
  script_personas :: string

text \<open>
  The prompt of a model call is a fixed template around a few values; the model keeps
  the values. The narrator's prompt holds the first 2000 code units of the article; a
  persona's prompt holds the persona, the first 5000 code units of the article, the
  conversation so far and the number of the turn.
\<close>

datatype prompt =
  NarratorPrompt string
| PersonaPrompt string string "string list" nat

text \<open>
  A call of \<^verbatim>\<open>c.env.AI.run\<close> throws, or returns an object whose field \<^verbatim>\<open>response\<close> is a
  string or is missing.
\<close>

datatype ai_outcome = AI_throws | AI_response "string option"

text \<open>Every call the handler makes to a binding or to the error console, in order.\<close>

datatype call =
  AI_run prompt
| R2_put string string
| R2_delete string
| DB_insert string string string
| Console_error string
| Console_warn string

record world =
  bucket :: "string \<rightharpoonup> string"
  scripts :: "script list"
  calls :: "call list"

text \<open>
  What the platform decides during one request: the outcome of fetching and parsing the
  document, the answers of the model, the clock, whether the bucket accepts the put and the
  delete, and whether the database accepts the insert (then with the id and the time of
  creation it assigns).
\<close>

record env =
  pdf :: "string \<Rightarrow> string + string"
  ai :: "prompt \<Rightarrow> ai_outcome"
  now :: nat
  put_ok :: bool
  insert_result :: "(nat \<times> string) option"
  delete_ok :: bool

datatype exception = ApiException string nat | InputValidationException

record response =
  status :: nat
  success :: bool
  result :: script

definition log_call :: "call \<Rightarrow> world \<Rightarrow> world" where
  "log_call x w = w\<lparr>calls := calls w @ [x]\<rparr>"

text \<open>
  \<^verbatim>\<open>R2_BUCKET.put(key, value)\<close> is unconditional (the handler passes no precondition): when
  the bucket accepts it, the object under the key is the value, whatever was there; when it
  throws, the bucket is as before.
\<close>

definition R2_BUCKET_put :: "env \<Rightarrow> string \<Rightarrow> string \<Rightarrow> world \<Rightarrow> bool \<times> world" where
  "R2_BUCKET_put e k v w =
     (let w1 = log_call (R2_put k v) w
      in if put_ok e then (True, w1\<lparr>bucket := (bucket w1)(k \<mapsto> v)\<rparr>) else (False, w1))"

definition R2_BUCKET_delete :: "env \<Rightarrow> string \<Rightarrow> world \<Rightarrow> bool \<times> world" where
  "R2_BUCKET_delete e k w =
     (let w1 = log_call (R2_delete k) w
      in if delete_ok e then (True, w1\<lparr>bucket := (bucket w1)(k := None)\<rparr>) else (False, w1))"

text \<open>
  The insert of lines 160 to 164 binds name, link and personas; when the database accepts
  it, the row is in the table and is returned, with the id and the time of creation the
  database assigned; when it throws, the table is as before.
\<close>

definition DB_insert_returning ::
  "env \<Rightarrow> string \<Rightarrow> string \<Rightarrow> string \<Rightarrow> world \<Rightarrow> script option \<times> world" where
  "DB_insert_returning e name link personasJson w =
     (let w1 = log_call (DB_insert name link personasJson) w
      in case insert_result e of
           None \<Rightarrow> (None, w1)
         | Some (i, t) \<Rightarrow>
             (let info = \<lparr>script_id = i, script_name = name, script_r2_file_link = link,
                          script_created_at = t, script_personas = personasJson\<rparr>
              in (Some info, w1\<lparr>scripts := scripts w1 @ [info]\<rparr>)))"

section \<open>Storing the script: lines 150 to 180\<close>

definition BlobWriteFailed :: exception where
  "BlobWriteFailed = ApiException ''Failed to store generated script in R2.'' 500"

definition MetadataWriteFailed :: exception where
  "MetadataWriteFailed = ApiException ''Failed to save script metadata to the database.'' 500"

definition commit ::
  "env \<Rightarrow> string \<Rightarrow> string \<Rightarrow> string list \<Rightarrow> string \<Rightarrow> world \<Rightarrow> (exception + response) \<times> world"
  where
  "commit e name link personas fullScriptContent w =
     (case R2_BUCKET_put e link fullScriptContent w of
        (False, w1) \<Rightarrow>
          (Inl (ApiException ''Failed to store generated script in R2.'' 500),
           log_call (Console_error ''Error uploading to R2:'') w1)
      | (True, w1) \<Rightarrow>
          (let personasJson = JSON_stringify personas
           in case DB_insert_returning e name link personasJson w1 of
                (Some info, w2) \<Rightarrow>
                  (Inr \<lparr>status = 201, success = True, result = info\<rparr>, w2)
              | (None, w2) \<Rightarrow>
                  (let w3 = log_call (Console_error ''Error inserting into D1:'') w2;
                       w4 = (case R2_BUCKET_delete e link w3 of
                               (True, w') \<Rightarrow> w'
                             | (False, w') \<Rightarrow>
                                 log_call (Console_error ''Error cleaning up orphaned R2 file:'') w')
                   in (Inl (ApiException ''Failed to save script metadata to the database.'' 500),
                       w4))))"

section \<open>Generating the script: lines 77 to 146\<close>

definition MAX_TURNS :: nat where
  "MAX_TURNS = 10"

definition speak_open :: string where
  \<open>speak_open = ''<speak xmlns="http://www.w3.org/2001/10/synthesis" xmlns:xsi="http://www.w3.org/2001/XMLSchema-instance" xsi:schemaLocation="http://www.w3.org/WAI/TR/2018/wcag21/syn-speech-api#command">''\<close>

text \<open>
  The helper of lines 84 to 108. It reads the conversation as it is at the moment of the
  call. An exception of the model call is caught and gives the empty string, as a missing
  or empty \<^verbatim>\<open>response\<close> does.
\<close>

definition generatePersonaResponse ::
  "env \<Rightarrow> string \<Rightarrow> string list \<Rightarrow> string \<Rightarrow> nat \<Rightarrow> world \<Rightarrow> string \<times> world" where
  "generatePersonaResponse e articleText conversationHistory persona currentTurn w =
     (let personaPrompt =
            PersonaPrompt persona (take 5000 articleText) conversationHistory currentTurn;
          w1 = log_call (AI_run personaPrompt) w
      in case ai e personaPrompt of
           AI_response r \<Rightarrow> (case r of Some s \<Rightarrow> s | None \<Rightarrow> [], w1)
         | AI_throws \<Rightarrow>
             ([], log_call (Console_error (''Error calling Workers AI for '' @ persona @ '':'')) w1))"

text \<open>Lines 111 to 130: the narrator's introduction; the script goes on without it.\<close>

definition narrator_intro ::
  "env \<Rightarrow> string \<Rightarrow> string \<Rightarrow> string list \<Rightarrow> world \<Rightarrow> string \<times> string list \<times> world" where
  "narrator_intro e articleText fullScriptContent conversationHistory w =
     (let narratorPrompt = NarratorPrompt (take 2000 articleText);
          w1 = log_call (AI_run narratorPrompt) w
      in case ai e narratorPrompt of
           AI_response r \<Rightarrow>
             (let intro = (case r of Some s \<Rightarrow> s | None \<Rightarrow> [])
              in (fullScriptContent @ intro, conversationHistory @ [intro], w1))
         | AI_throws \<Rightarrow>
             (fullScriptContent, conversationHistory,
              log_call (Console_error ''Error generating narrator intro:'') w1))"

text \<open>
  Lines 133 to 144: the loop over the turns, from turn \<open>i\<close> on. The list of personas is
  not empty there (the schema of the request demands one persona at least).
\<close>

function dialogue_loop ::
  "env \<Rightarrow> string \<Rightarrow> string list \<Rightarrow> nat \<Rightarrow> string \<Rightarrow> string list \<Rightarrow> world
     \<Rightarrow> string \<times> string list \<times> world" where
  "dialogue_loop e articleText personas i fullScriptContent conversationHistory w =
     (if i < MAX_TURNS then
        (let currentPersona = personas ! (i mod length personas);
             r = generatePersonaResponse e articleText conversationHistory currentPersona (i + 1) w
         in if fst r \<noteq> [] then
              dialogue_loop e articleText personas (i + 1)
                (fullScriptContent @ fst r) (conversationHistory @ [fst r]) (snd r)
            else
              (fullScriptContent, conversationHistory,
               log_call (Console_warn (''Persona '' @ currentPersona
                 @ '' failed to generate a response. Ending conversation.'')) (snd r)))
      else (fullScriptContent, conversationHistory, w))"
  by pat_completeness auto
termination
  by (relation "measure (\<lambda>(e, a, p, i, c, h, w). MAX_TURNS - i)") auto

declare dialogue_loop.simps [simp del]

section \<open>The handler\<close>

record body =
  body_name :: string
  body_url :: string
  body_personas :: "string list"

text \<open>
  Of the schema of the request (lines 28 to 32) the handler relies on \<^verbatim>\<open>personas\<close> having
  one element at least; \<^verbatim>\<open>getValidatedData\<close> throws for a body that fails the schema.
\<close>

definition valid_body :: "body \<Rightarrow> bool" where
  "valid_body b = (body_personas b \<noteq> [])"

text \<open>
  Lines 6 to 20. Fetching and parsing are the platform's: \<^term>\<open>pdf e url\<close> is the
  message of the error thrown on the way, or the extracted text.
\<close>

definition extractTextFromPdf :: "env \<Rightarrow> string \<Rightarrow> world \<Rightarrow> (exception + string) \<times> world" where
  "extractTextFromPdf e url w =
     (case pdf e url of
        Inr text \<Rightarrow> (Inr (trim text), w)
      | Inl msg \<Rightarrow>
          (Inl (ApiException (''Failed to process PDF from url: '' @ url @ ''. '' @ msg) 400),
           log_call (Console_error ''Error extracting text from PDF:'') w))"

text \<open>The script as it stands at line 146, and the state of the world there.\<close>

definition generate_script :: "env \<Rightarrow> string \<Rightarrow> string list \<Rightarrow> world \<Rightarrow> string \<times> world" where
  "generate_script e articleText personas w =
     (case narrator_intro e articleText speak_open [] w of
        (c1, h1, w1) \<Rightarrow>
          (case dialogue_loop e articleText personas 0 c1 h1 w1 of
             (c2, h2, w2) \<Rightarrow> (c2 @ ''</speak>'', w2)))"

definition handle :: "env \<Rightarrow> body \<Rightarrow> world \<Rightarrow> (exception + response) \<times> world" where
  "handle e b w =
     (if \<not> valid_body b then (Inl InputValidationException, w)
      else case extractTextFromPdf e (body_url b) w of
             (Inl ex, w1) \<Rightarrow> (Inl ex, w1)
           | (Inr articleText, w1) \<Rightarrow>
               if articleText = [] \<or> length (trim articleText) = 0 then
                 (Inl (ApiException ''Could not extract text from the provided PDF.'' 400), w1)
               else
                 (case generate_script e articleText (body_personas b) w1 of
                    (fullScriptContent, w2) \<Rightarrow>
                      commit e (body_name b) (r2_file_link (now e) (body_name b))
                        (body_personas b) fullScriptContent w2))"

section \<open>What a run has done\<close>

text \<open>The calls made between two states of the world.\<close>

definition new_calls :: "world \<Rightarrow> world \<Rightarrow> call list" where
  "new_calls w w' = drop (length (calls w)) (calls w')"

text \<open>The prompts of the persona turns among some calls, in order.\<close>

fun persona_turn :: "call \<Rightarrow> prompt list" where
  "persona_turn (AI_run (PersonaPrompt persona article history turn)) =
     [PersonaPrompt persona article history turn]"
| "persona_turn _ = []"

definition persona_turns :: "call list \<Rightarrow> prompt list" where
  "persona_turns cs = concat (map persona_turn cs)"

fun prompt_persona :: "prompt \<Rightarrow> string" where
  "prompt_persona (PersonaPrompt persona article history turn) = persona"
| "prompt_persona (NarratorPrompt article) = ''Narrator''"

fun prompt_turn :: "prompt \<Rightarrow> nat" where
  "prompt_turn (PersonaPrompt persona article history turn) = turn"
| "prompt_turn (NarratorPrompt article) = 0"

text \<open>The text \<^verbatim>\<open>response.response || ''\<close> that the model gives for a prompt, empty when it throws.\<close>

definition response_text :: "env \<Rightarrow> prompt \<Rightarrow> string" where
  "response_text e p =
     (case ai e p of
        AI_throws \<Rightarrow> []
      | AI_response r \<Rightarrow> (case r of None \<Rightarrow> [] | Some s \<Rightarrow> s))"

text \<open>The persona turns of a run of the loop from turn \<open>i\<close> on.\<close>

definition loop_turns ::
  "env \<Rightarrow> string \<Rightarrow> string list \<Rightarrow> nat \<Rightarrow> string \<Rightarrow> string list \<Rightarrow> world \<Rightarrow> prompt list" where
  "loop_turns e articleText personas i c h w =
     persona_turns (new_calls w (snd (snd (dialogue_loop e articleText personas i c h w))))"

text \<open>The calls that touch neither store: model calls and lines on the console.\<close>

fun quiet :: "call \<Rightarrow> bool" where
  "quiet (AI_run p) = True"
| "quiet (Console_error m) = True"
| "quiet (Console_warn m) = True"
| "quiet _ = False"

text \<open>Every row of the table has its script in the bucket.\<close>

definition rows_have_blobs :: "world \<Rightarrow> bool" where
  "rows_have_blobs w = list_all (\<lambda>r. bucket w (script_r2_file_link r) \<noteq> None) (scripts w)"

section \<open>Requests and platforms to run the handler on\<close>

definition world0 :: world where
  "world0 = \<lparr>bucket = Map.empty, scripts = [], calls = []\<rparr>"

definition env0 :: env where
  "env0 = \<lparr>pdf = (\<lambda>u. Inr ''An article.''), ai = (\<lambda>p. AI_throws), now = 1730000000000,
            put_ok = True, insert_result = Some (1, ''2024-10-27 03:33:20''),
            delete_ok = True\<rparr>"

definition env1 :: env where
  "env1 = env0\<lparr>insert_result := Some (2, ''2024-10-27 03:33:21'')\<rparr>"

definition env_put_fails :: env where
  "env_put_fails = env0\<lparr>put_ok := False\<rparr>"

definition env_insert_fails :: env where
  "env_insert_fails = env0\<lparr>insert_result := None\<rparr>"

definition env_delete_fails :: env where
  "env_delete_fails = env0\<lparr>insert_result := None, delete_ok := False\<rparr>"

definition link0 :: string where
  "link0 = ''generated/1730000000000-Talk.ssml''"

text \<open>
  A request with two personas, and a model that answers the narrator and the first two
  turns and gives an empty response at the third.
\<close>

definition body0 :: body where
  "body0 = \<lparr>body_name = ''Talk'', body_url = ''https://example.org/a.pdf'',
             body_personas = [''Ann'', ''Bob'']\<rparr>"

definition env_talk :: env where
  "env_talk = env0\<lparr>ai := (\<lambda>p. case p of
       NarratorPrompt article \<Rightarrow> AI_response (Some ''<voice>Welcome</voice>'')
     | PersonaPrompt persona article history turn \<Rightarrow>
         if turn < 3 then AI_response (Some (''<voice>'' @ persona @ ''</voice>''))
         else AI_response (Some ''''))\<rparr>"

section \<open>Properties of storing the script\<close>

lemmas store_defs =
  R2_BUCKET_put_def R2_BUCKET_delete_def DB_insert_returning_def log_call_def Let_def

lemmas example_defs =
  env0_def env1_def env_put_fails_def env_insert_fails_def env_delete_fails_def world0_def
  link0_def

text \<open>
  C1. A run of \<^const>\<open>commit\<close> creates no row, or exactly one: then the put of the same
  key was accepted before the insert was made, the two of them are all the calls of the
  run, and at that moment, which is the end of the run, the bucket holds the script under
  the key of the row. The row returned is the row created.
\<close>

theorem commit_row_only_after_blob:
  "((\<exists>ex. fst (commit e name link personas content w) = Inl ex)
      \<and> scripts (snd (commit e name link personas content w)) = scripts w)
   \<or> (\<exists>r. scripts (snd (commit e name link personas content w)) = scripts w @ [r]
        \<and> fst (commit e name link personas content w) = Inr \<lparr>status = 201, success = True, result = r\<rparr>
        \<and> script_r2_file_link r = link
        \<and> put_ok e
        \<and> bucket (snd (commit e name link personas content w)) link = Some content
        \<and> calls (snd (commit e name link personas content w)) =
            calls w @ [R2_put link content, DB_insert name link (JSON_stringify personas)])"
proof (cases "put_ok e")
  case False
  then have "fst (commit e name link personas content w) = Inl BlobWriteFailed"
    and "scripts (snd (commit e name link personas content w)) = scripts w"
    by (simp_all add: commit_def store_defs BlobWriteFailed_def)
  then show ?thesis
    by blast
next
  case put: True
  show ?thesis
  proof (cases "insert_result e")
    case None
    with put have "fst (commit e name link personas content w) = Inl MetadataWriteFailed"
      and "scripts (snd (commit e name link personas content w)) = scripts w"
      by (simp_all add: commit_def store_defs MetadataWriteFailed_def)
    then show ?thesis
      by blast
  next
    case (Some it)
    obtain i t where it: "it = (i, t)"
      by (cases it)
    let ?r = "\<lparr>script_id = i, script_name = name, script_r2_file_link = link,
               script_created_at = t, script_personas = JSON_stringify personas\<rparr>"
    from put Some it have
      "scripts (snd (commit e name link personas content w)) = scripts w @ [?r]"
      "fst (commit e name link personas content w) = Inr \<lparr>status = 201, success = True, result = ?r\<rparr>"
      "bucket (snd (commit e name link personas content w)) link = Some content"
      "calls (snd (commit e name link personas content w)) =
         calls w @ [R2_put link content, DB_insert name link (JSON_stringify personas)]"
      by (simp_all add: commit_def store_defs)
    with put show ?thesis
      by (intro disjI2 exI [of _ ?r]) simp
  qed
qed

text \<open>
  Over the life of the rows: a run with a fresh key keeps every row's script in the bucket.
  (With a key already in use the delete after a failed insert would remove the script of
  the earlier row; the contract of the operation excludes that.)
\<close>

lemma commit_preserves_rows_have_blobs:
  assumes "rows_have_blobs w" and "bucket w link = None"
  shows "rows_have_blobs (snd (commit e name link personas content w))"
proof -
  from assms have old: "list_all (\<lambda>r. script_r2_file_link r \<noteq> link) (scripts w)"
    by (auto simp: rows_have_blobs_def list_all_iff)
  with assms show ?thesis
    by (cases "put_ok e"; cases "insert_result e"; cases "delete_ok e")
       (auto simp add: commit_def store_defs rows_have_blobs_def list_all_iff)
qed

text \<open>
  C2. When the put and the insert both succeed, the record returned has as its
  \<^verbatim>\<open>r2_file_link\<close> exactly the key given to the put, and afterwards the bucket holds exactly
  the given script under that key. The calls made are the put and the insert, in this
  order.
\<close>

theorem commit_success_returns_key_and_stores_bytes:
  assumes "put_ok e" and "insert_result e = Some (i, t)"
  shows "fst (commit e name link personas content w) =
           Inr \<lparr>status = 201, success = True,
                result = \<lparr>script_id = i, script_name = name, script_r2_file_link = link,
                           script_created_at = t, script_personas = JSON_stringify personas\<rparr>\<rparr>
         \<and> script_r2_file_link (result (projr (fst (commit e name link personas content w)))) = link
         \<and> bucket (snd (commit e name link personas content w)) link = Some content
         \<and> calls (snd (commit e name link personas content w)) =
             calls w @ [R2_put link content, DB_insert name link (JSON_stringify personas)]"
  using assms by (simp add: commit_def store_defs)

theorem commit_success_witness:
  "put_ok env0 \<and> insert_result env0 = Some (1, ''2024-10-27 03:33:20'')
   \<and> script_r2_file_link (result (projr (fst
        (commit env0 ''Talk'' link0 [''Ann''] ''<speak></speak>'' world0)))) = link0
   \<and> bucket (snd (commit env0 ''Talk'' link0 [''Ann''] ''<speak></speak>'' world0)) link0
       = Some ''<speak></speak>''"
  using commit_success_returns_key_and_stores_bytes
    [of env0 1 "''2024-10-27 03:33:20''" "''Talk''" link0 "[''Ann'']" "''<speak></speak>''" world0]
  by (simp add: env0_def)

text \<open>
  C3. When the put succeeds and the insert fails, the caller gets the exception of the
  failed insert, the delete of the key is called after the insert, and when the delete
  succeeds the bucket has nothing under the key afterwards.
\<close>

theorem commit_metadata_failure_compensates:
  assumes "put_ok e" and "insert_result e = None"
  shows "fst (commit e name link personas content w) = Inl MetadataWriteFailed
         \<and> calls (snd (commit e name link personas content w)) =
             calls w @ [R2_put link content, DB_insert name link (JSON_stringify personas),
                        Console_error ''Error inserting into D1:'', R2_delete link]
               @ (if delete_ok e then [] else [Console_error ''Error cleaning up orphaned R2 file:''])
         \<and> (delete_ok e \<longrightarrow> bucket (snd (commit e name link personas content w)) link = None)"
  using assms by (simp add: commit_def store_defs MetadataWriteFailed_def)

theorem commit_metadata_failure_witness:
  "put_ok env_insert_fails \<and> insert_result env_insert_fails = None \<and> delete_ok env_insert_fails
   \<and> fst (commit env_insert_fails ''Talk'' link0 [''Ann''] ''<speak></speak>'' world0) = Inl MetadataWriteFailed
   \<and> bucket (snd (commit env_insert_fails ''Talk'' link0 [''Ann''] ''<speak></speak>'' world0)) link0 = None"
  using commit_metadata_failure_compensates
    [of env_insert_fails "''Talk''" link0 "[''Ann'']" "''<speak></speak>''" world0]
  by (simp add: example_defs)

text \<open>
  C4, as the claim states it, fails: the exception thrown when the delete fails too is the
  very exception thrown when the delete succeeds, a message and a status and nothing else.
\<close>

theorem commit_compensation_failure_not_in_result:
  "fst (commit env_delete_fails ''Talk'' link0 [''Ann''] ''<speak></speak>'' world0)
     = Inl (ApiException ''Failed to save script metadata to the database.'' 500)
   \<and> fst (commit env_delete_fails ''Talk'' link0 [''Ann''] ''<speak></speak>'' world0)
     = fst (commit env_insert_fails ''Talk'' link0 [''Ann''] ''<speak></speak>'' world0)
   \<and> \<not> delete_ok env_delete_fails \<and> delete_ok env_insert_fails"
  by (simp add: commit_def store_defs example_defs)

text \<open>
  C4, amended. When the insert and the delete after it both fail, the caller still gets the
  exception of the failed insert, the same as when the delete succeeds; the failure of the
  delete is written to the error console only; the script stays in the bucket under the
  key.
\<close>

theorem commit_compensation_failure_only_logged:
  assumes "put_ok e" and "insert_result e = None" and "\<not> delete_ok e"
  shows "fst (commit e name link personas content w) = Inl MetadataWriteFailed
         \<and> fst (commit e name link personas content w)
             = fst (commit (e\<lparr>delete_ok := True\<rparr>) name link personas content w)
         \<and> calls (snd (commit e name link personas content w)) =
             calls w @ [R2_put link content, DB_insert name link (JSON_stringify personas),
                        Console_error ''Error inserting into D1:'', R2_delete link,
                        Console_error ''Error cleaning up orphaned R2 file:'']
         \<and> bucket (snd (commit e name link personas content w)) link = Some content"
  using assms by (simp add: commit_def store_defs MetadataWriteFailed_def)

theorem commit_compensation_failure_witness:
  "put_ok env_delete_fails \<and> insert_result env_delete_fails = None \<and> \<not> delete_ok env_delete_fails
   \<and> fst (commit env_delete_fails ''Talk'' link0 [''Ann''] ''<speak></speak>'' world0) = Inl MetadataWriteFailed
   \<and> bucket (snd (commit env_delete_fails ''Talk'' link0 [''Ann''] ''<speak></speak>'' world0)) link0
       = Some ''<speak></speak>''"
  using commit_compensation_failure_only_logged
    [of env_delete_fails "''Talk''" link0 "[''Ann'']" "''<speak></speak>''" world0]
  by (simp add: example_defs)

text \<open>
  C5, as the claim states it, fails: after a first success, a second run with the same key
  whose put the bucket accepts succeeds too, replaces the script under the key and adds a
  second row with that key.
\<close>

theorem commit_same_key_twice_overwrites:
  "fst (commit env0 ''Talk'' link0 [''Ann''] ''<speak>one</speak>'' world0) =
     Inr \<lparr>status = 201, success = True,
          result = \<lparr>script_id = 1, script_name = ''Talk'', script_r2_file_link = link0,
                     script_created_at = ''2024-10-27 03:33:20'', script_personas = ''[\"Ann\"]''\<rparr>\<rparr>
   \<and> bucket (snd (commit env0 ''Talk'' link0 [''Ann''] ''<speak>one</speak>'' world0)) link0
       = Some ''<speak>one</speak>''
   \<and> fst (commit env1 ''Talk'' link0 [''Ann''] ''<speak>two</speak>''
          (snd (commit env0 ''Talk'' link0 [''Ann''] ''<speak>one</speak>'' world0))) =
     Inr \<lparr>status = 201, success = True,
          result = \<lparr>script_id = 2, script_name = ''Talk'', script_r2_file_link = link0,
                     script_created_at = ''2024-10-27 03:33:21'', script_personas = ''[\"Ann\"]''\<rparr>\<rparr>
   \<and> fst (commit env1 ''Talk'' link0 [''Ann''] ''<speak>two</speak>''
          (snd (commit env0 ''Talk'' link0 [''Ann''] ''<speak>one</speak>'' world0))) \<noteq> Inl BlobWriteFailed
   \<and> bucket (snd (commit env1 ''Talk'' link0 [''Ann''] ''<speak>two</speak>''
          (snd (commit env0 ''Talk'' link0 [''Ann''] ''<speak>one</speak>'' world0)))) link0
       = Some ''<speak>two</speak>''"
  by (simp add: commit_def store_defs example_defs JSON_stringify_def json_string_def json_escape_def)

text \<open>
  C5, amended. The handler checks no key itself: after a first success, a second run with
  the same key fails at the put exactly when the bucket refuses the put, and then the table
  and the bucket are as the first run left them, its row and its script included.
\<close>

theorem commit_same_key_fails_only_if_put_fails:
  assumes "fst (commit e1 name1 link personas1 content1 w) = Inr r1"
  shows "(fst (commit e2 name2 link personas2 content2
                (snd (commit e1 name1 link personas1 content1 w))) = Inl BlobWriteFailed)
           = (\<not> put_ok e2)
         \<and> (\<not> put_ok e2 \<longrightarrow>
              scripts (snd (commit e2 name2 link personas2 content2
                 (snd (commit e1 name1 link personas1 content1 w))))
                = scripts (snd (commit e1 name1 link personas1 content1 w))
            \<and> bucket (snd (commit e2 name2 link personas2 content2
                 (snd (commit e1 name1 link personas1 content1 w))))
                = bucket (snd (commit e1 name1 link personas1 content1 w))
            \<and> bucket (snd (commit e2 name2 link personas2 content2
                 (snd (commit e1 name1 link personas1 content1 w)))) link = Some content1
            \<and> result r1 \<in> set (scripts (snd (commit e2 name2 link personas2 content2
                 (snd (commit e1 name1 link personas1 content1 w))))))"
proof -
  from assms have ok: "put_ok e1" and ins: "insert_result e1 \<noteq> None"
    by (cases "put_ok e1"; cases "insert_result e1"; simp add: commit_def store_defs)+
  then obtain i t where it: "insert_result e1 = Some (i, t)"
    by auto
  with ok assms show ?thesis
    by (cases "put_ok e2"; cases "insert_result e2")
       (auto simp add: commit_def store_defs BlobWriteFailed_def)
qed

theorem commit_same_key_witness:
  "fst (commit env0 ''Talk'' link0 [''Ann''] ''<speak>one</speak>'' world0) =
     Inr \<lparr>status = 201, success = True,
          result = \<lparr>script_id = 1, script_name = ''Talk'', script_r2_file_link = link0,
                     script_created_at = ''2024-10-27 03:33:20'', script_personas = ''[\"Ann\"]''\<rparr>\<rparr>
   \<and> \<not> put_ok env_put_fails
   \<and> fst (commit env_put_fails ''Talk'' link0 [''Ann''] ''<speak>two</speak>''
          (snd (commit env0 ''Talk'' link0 [''Ann''] ''<speak>one</speak>'' world0))) = Inl BlobWriteFailed
   \<and> bucket (snd (commit env_put_fails ''Talk'' link0 [''Ann''] ''<speak>two</speak>''
          (snd (commit env0 ''Talk'' link0 [''Ann''] ''<speak>one</speak>'' world0)))) link0
       = Some ''<speak>one</speak>''"
proof -
  have first: "fst (commit env0 ''Talk'' link0 [''Ann''] ''<speak>one</speak>'' world0) =
     Inr \<lparr>status = 201, success = True,
          result = \<lparr>script_id = 1, script_name = ''Talk'', script_r2_file_link = link0,
                     script_created_at = ''2024-10-27 03:33:20'', script_personas = ''[\"Ann\"]''\<rparr>\<rparr>"
    by (simp add: commit_def store_defs example_defs JSON_stringify_def json_string_def json_escape_def)
  have nput: "\<not> put_ok env_put_fails"
    by (simp add: example_defs)
  from commit_same_key_fails_only_if_put_fails [OF first, of env_put_fails "''Talk''" "[''Ann'']" "''<speak>two</speak>''"] nput
  have "fst (commit env_put_fails ''Talk'' link0 [''Ann''] ''<speak>two</speak>''
          (snd (commit env0 ''Talk'' link0 [''Ann''] ''<speak>one</speak>'' world0))) = Inl BlobWriteFailed"
    and "bucket (snd (commit env_put_fails ''Talk'' link0 [''Ann''] ''<speak>two</speak>''
          (snd (commit env0 ''Talk'' link0 [''Ann''] ''<speak>one</speak>'' world0)))) link0
       = Some ''<speak>one</speak>''"
    by blast+
  with first nput show ?thesis
    by blast
qed



text \<open>
  C8. Every run ends in one of two ways: with an exception, of the put or of the insert,
  and then the table is as before; or with the response that carries the complete row
  (id and time of creation as the database assigned them), which is the one row added.
\<close>

theorem commit_record_or_error:
  "(\<exists>ex. fst (commit e name link personas content w) = Inl ex
        \<and> (ex = BlobWriteFailed \<or> ex = MetadataWriteFailed)
        \<and> scripts (snd (commit e name link personas content w)) = scripts w)
   \<or> (\<exists>i t. insert_result e = Some (i, t)
        \<and> fst (commit e name link personas content w) =
             Inr \<lparr>status = 201, success = True,
                  result = \<lparr>script_id = i, script_name = name, script_r2_file_link = link,
                             script_created_at = t, script_personas = JSON_stringify personas\<rparr>\<rparr>
        \<and> scripts (snd (commit e name link personas content w)) =
             scripts w @ [\<lparr>script_id = i, script_name = name, script_r2_file_link = link,
                             script_created_at = t, script_personas = JSON_stringify personas\<rparr>])"
  by (cases "put_ok e"; cases "insert_result e")
     (auto simp add: commit_def store_defs BlobWriteFailed_def MetadataWriteFailed_def)

section \<open>Properties of the key\<close>

lemma digit_val_digit: "d < 10 \<Longrightarrow> digit_val (digit d) = d"
proof -
  assume "d < 10"
  then have "d = 0 \<or> d = 1 \<or> d = 2 \<or> d = 3 \<or> d = 4 \<or> d = 5 \<or> d = 6 \<or> d = 7 \<or> d = 8 \<or> d = 9"
    by arith
  then show ?thesis
    by (elim disjE) (simp_all add: digit_def digit_val_def)
qed
lemma is_space_hyphen: "\<not> is_space CHR ''-''"
  by (simp add: is_space_def)

lemma replace_ws_no_space: "x \<in> set (replace_ws s) \<Longrightarrow> \<not> is_space x"
proof (induction s rule: replace_ws.induct)
  case 1
  then show ?case by simp
next
  case (2 c cs)
  show ?case
  proof (cases "is_space c")
    case True
    with "2.prems" have "x = CHR ''-'' \<or> x \<in> set (replace_ws (dropWhile is_space cs))"
      by simp
    with True "2.IH"(1) show ?thesis
      using is_space_hyphen by blast
  next
    case False
    with "2.prems" have "x = c \<or> x \<in> set (replace_ws cs)"
      by simp
    with False "2.IH"(2) show ?thesis
      by blast
  qed
qed

lemma replace_ws_id: "(\<forall>c \<in> set s. \<not> is_space c) \<Longrightarrow> replace_ws s = s"
  by (induction s) auto

lemma read_nat_snoc: "read_nat (s @ [c]) = 10 * read_nat s + digit_val c"
  by (simp add: read_nat_def)

lemma read_show_nat: "read_nat (show_nat n) = n"
proof (induction n rule: show_nat.induct)
  case (1 n)
  show ?case
  proof (cases "n < 10")
    case True
    then show ?thesis
      by (subst show_nat.simps) (simp add: read_nat_def digit_val_digit)
  next
    case False
    with 1 have "read_nat (show_nat (n div 10)) = n div 10" by simp
    with False show ?thesis
      by (subst show_nat.simps) (simp add: read_nat_snoc digit_val_digit)
  qed
qed

lemma show_nat_example: "show_nat 1730000000000 = ''1730000000000''"
  by (simp add: show_nat.simps digit_def)

text \<open>Two requests of the same name get the same key only at the same millisecond.\<close>

lemma r2_file_link_timestamp_inj:
  "r2_file_link t1 name = r2_file_link t2 name \<Longrightarrow> t1 = t2"
proof -
  assume "r2_file_link t1 name = r2_file_link t2 name"
  then have "show_nat t1 = show_nat t2"
    by (simp add: r2_file_link_def)
  then have "read_nat (show_nat t1) = read_nat (show_nat t2)" by simp
  then show ?thesis by (simp add: read_show_nat)
qed

text \<open>
  C6, as the claim states it, fails: the key is not the name, a hyphen and the timestamp.
\<close>

theorem r2_file_link_not_name_first:
  "r2_file_link 1730000000000 ''Talk'' = ''generated/1730000000000-Talk.ssml''
   \<and> r2_file_link 1730000000000 ''Talk'' \<noteq> replace_ws ''Talk'' @ ''-'' @ show_nat 1730000000000"
  by (simp add: r2_file_link_def show_nat_example is_space_def)

text \<open>
  C6, amended. The key is a function of the name and the timestamp: the prefix
  \<^verbatim>\<open>generated/\<close>, the timestamp in decimal, a hyphen, the name with every run of white space
  replaced by one hyphen, and the suffix \<^verbatim>\<open>.ssml\<close>. The decimal numeral reads back as the
  timestamp; the replaced name has no white space, and is the name when the name has none.
\<close>

theorem r2_file_link_format:
  "r2_file_link t name = ''generated/'' @ show_nat t @ ''-'' @ replace_ws name @ ''.ssml''
   \<and> read_nat (show_nat t) = t
   \<and> (\<forall>c \<in> set (replace_ws name). \<not> is_space c)
   \<and> ((\<forall>c \<in> set name. \<not> is_space c) \<longrightarrow> replace_ws name = name)"
  using replace_ws_no_space [of _ name] replace_ws_id [of name]
  by (simp add: r2_file_link_def read_show_nat)

theorem r2_file_link_format_witness:
  "r2_file_link 1730000000000 ''my  talk'' = ''generated/1730000000000-my-talk.ssml''
   \<and> read_nat ''1730000000000'' = 1730000000000
   \<and> \<not> (\<exists>c \<in> set ''Talk''. is_space c) \<and> replace_ws ''Talk'' = ''Talk''"
proof -
  have "r2_file_link 1730000000000 ''my  talk''
          = ''generated/'' @ show_nat 1730000000000 @ ''-'' @ replace_ws ''my  talk'' @ ''.ssml''"
    using r2_file_link_format [of 1730000000000 "''my  talk''"] by (rule conjunct1)
  also have "\<dots> = ''generated/1730000000000-my-talk.ssml''"
    by (simp add: show_nat_example is_space_def)
  finally have a: "r2_file_link 1730000000000 ''my  talk'' = ''generated/1730000000000-my-talk.ssml''" .
  have "read_nat (show_nat 1730000000000) = 1730000000000"
    using r2_file_link_format [of 1730000000000 "''my  talk''"] by blast
  then have b: "read_nat ''1730000000000'' = 1730000000000"
    by (simp only: show_nat_example)
  have c: "\<forall>c \<in> set ''Talk''. \<not> is_space c"
    by (simp add: is_space_def)
  have d: "replace_ws ''Talk'' = ''Talk''"
    using r2_file_link_format [of 1730000000000 "''Talk''"] c by blast
  show ?thesis
    using a b c d by blast
qed

section \<open>Properties of generating the script\<close>

lemma new_calls_append: "calls w' = calls w @ xs \<Longrightarrow> new_calls w w' = xs"
  by (simp add: new_calls_def)

lemma persona_turns_append: "persona_turns (xs @ ys) = persona_turns xs @ persona_turns ys"
  by (simp add: persona_turns_def)

lemma generatePersonaResponse_text:
  "fst (generatePersonaResponse e a h p t w) = response_text e (PersonaPrompt p (take 5000 a) h t)"
  by (simp add: generatePersonaResponse_def response_text_def Let_def
      split: ai_outcome.splits option.splits)

lemma generatePersonaResponse_calls:
  "\<exists>xs. calls (snd (generatePersonaResponse e a h p t w))
          = calls w @ AI_run (PersonaPrompt p (take 5000 a) h t) # xs
        \<and> (xs = [] \<or> (\<exists>m. xs = [Console_error m]))"
  by (simp add: generatePersonaResponse_def log_call_def Let_def split: ai_outcome.splits)

lemma generatePersonaResponse_stores:
  "bucket (snd (generatePersonaResponse e a h p t w)) = bucket w
   \<and> scripts (snd (generatePersonaResponse e a h p t w)) = scripts w"
  by (simp add: generatePersonaResponse_def log_call_def Let_def split: ai_outcome.splits)

lemma dialogue_loop_calls:
  "\<exists>xs. calls (snd (snd (dialogue_loop e a ps i c h w))) = calls w @ xs \<and> list_all quiet xs"
proof (induction e a ps i c h w rule: dialogue_loop.induct)
  case (1 e a ps i c h w)
  show ?case
  proof (cases "i < MAX_TURNS")
    case False
    then show ?thesis
      by (subst dialogue_loop.simps) simp
  next
    case True
    let ?p = "ps ! (i mod length ps)"
    let ?r = "generatePersonaResponse e a h ?p (i + 1) w"
    from generatePersonaResponse_calls [of e a h ?p "i + 1" w]
    obtain ys where ys: "calls (snd ?r) = calls w @ ys" "list_all quiet ys"
      by auto
    show ?thesis
    proof (cases "fst ?r = []")
      case True
      with \<open>i < MAX_TURNS\<close> ys show ?thesis
        by (subst dialogue_loop.simps) (simp add: Let_def log_call_def)
    next
      case False
      with "1.IH" [OF \<open>i < MAX_TURNS\<close> refl refl] obtain zs where
        zs: "calls (snd (snd (dialogue_loop e a ps (i + 1) (c @ fst ?r) (h @ [fst ?r]) (snd ?r))))
               = calls (snd ?r) @ zs" "list_all quiet zs"
        by auto
      with False \<open>i < MAX_TURNS\<close> ys show ?thesis
        by (subst dialogue_loop.simps) (simp add: Let_def)
    qed
  qed
qed

lemma dialogue_loop_stores:
  "bucket (snd (snd (dialogue_loop e a ps i c h w))) = bucket w
   \<and> scripts (snd (snd (dialogue_loop e a ps i c h w))) = scripts w"
proof (induction e a ps i c h w rule: dialogue_loop.induct)
  case (1 e a ps i c h w)
  show ?case
  proof (cases "i < MAX_TURNS")
    case False
    then show ?thesis
      by (subst dialogue_loop.simps, subst (2) dialogue_loop.simps) simp
  next
    case True
    let ?r = "generatePersonaResponse e a h (ps ! (i mod length ps)) (i + 1) w"
    show ?thesis
    proof (cases "fst ?r = []")
      case True
      with \<open>i < MAX_TURNS\<close> generatePersonaResponse_stores [of e a h "ps ! (i mod length ps)" "i + 1" w]
      show ?thesis
        by (subst dialogue_loop.simps, subst (2) dialogue_loop.simps) (simp add: Let_def log_call_def)
    next
      case False
      with "1.IH" [OF \<open>i < MAX_TURNS\<close> refl refl] \<open>i < MAX_TURNS\<close>
        generatePersonaResponse_stores [of e a h "ps ! (i mod length ps)" "i + 1" w]
      show ?thesis
        by (subst dialogue_loop.simps, subst (2) dialogue_loop.simps) (simp add: Let_def)
    qed
  qed
qed

text \<open>The turns of the loop, turn by turn: one more turn as long as the answer is not empty.\<close>

lemma loop_turns_rec:
  "loop_turns e a ps i c h w =
     (if i < MAX_TURNS then
        PersonaPrompt (ps ! (i mod length ps)) (take 5000 a) h (i + 1) #
          (if response_text e (PersonaPrompt (ps ! (i mod length ps)) (take 5000 a) h (i + 1)) = []
           then []
           else loop_turns e a ps (i + 1)
                  (c @ response_text e (PersonaPrompt (ps ! (i mod length ps)) (take 5000 a) h (i + 1)))
                  (h @ [response_text e (PersonaPrompt (ps ! (i mod length ps)) (take 5000 a) h (i + 1))])
                  (snd (generatePersonaResponse e a h (ps ! (i mod length ps)) (i + 1) w)))
      else [])"
proof (cases "i < MAX_TURNS")
  case False
  then have "dialogue_loop e a ps i c h w = (c, h, w)"
    by (subst dialogue_loop.simps) simp
  with False show ?thesis
    by (simp add: loop_turns_def new_calls_def persona_turns_def)
next
  case True
  let ?p = "PersonaPrompt (ps ! (i mod length ps)) (take 5000 a) h (i + 1)"
  let ?r = "generatePersonaResponse e a h (ps ! (i mod length ps)) (i + 1) w"
  have resp: "fst ?r = response_text e ?p"
    by (rule generatePersonaResponse_text)
  from generatePersonaResponse_calls [of e a h "ps ! (i mod length ps)" "i + 1" w]
  obtain xs where xs: "calls (snd ?r) = calls w @ AI_run ?p # xs"
    and xs_console: "xs = [] \<or> (\<exists>m. xs = [Console_error m])"
    by blast
  from xs_console have xs_turns: "persona_turns xs = []"
    by (auto simp: persona_turns_def)
  show ?thesis
  proof (cases "response_text e ?p = []")
    case True
    with \<open>i < MAX_TURNS\<close> resp have
      "snd (snd (dialogue_loop e a ps i c h w)) =
         log_call (Console_warn (''Persona '' @ ps ! (i mod length ps)
           @ '' failed to generate a response. Ending conversation.'')) (snd ?r)"
      by (subst dialogue_loop.simps) (simp add: Let_def)
    then have "calls (snd (snd (dialogue_loop e a ps i c h w))) =
        calls w @ (AI_run ?p # xs @ [Console_warn (''Persona '' @ ps ! (i mod length ps)
           @ '' failed to generate a response. Ending conversation.'')])"
      using xs by (simp add: log_call_def)
    then have "loop_turns e a ps i c h w = [?p]"
      unfolding loop_turns_def
      by (simp only: new_calls_append) (simp add: persona_turns_def xs_turns [unfolded persona_turns_def])
    with True \<open>i < MAX_TURNS\<close> show ?thesis
      by simp
  next
    case False
    let ?w' = "snd (snd (dialogue_loop e a ps (i + 1) (c @ fst ?r) (h @ [fst ?r]) (snd ?r)))"
    from False \<open>i < MAX_TURNS\<close> resp have step:
      "snd (snd (dialogue_loop e a ps i c h w)) = ?w'"
      by (subst dialogue_loop.simps) (simp add: Let_def)
    from dialogue_loop_calls [of e a ps "i + 1" "c @ fst ?r" "h @ [fst ?r]" "snd ?r"]
    obtain zs where zs: "calls ?w' = calls (snd ?r) @ zs"
      by blast
    then have inner: "new_calls (snd ?r) ?w' = zs"
      by (rule new_calls_append)
    from zs xs have "calls ?w' = calls w @ (AI_run ?p # xs @ zs)"
      by simp
    then have "new_calls w ?w' = AI_run ?p # xs @ zs"
      by (rule new_calls_append)
    then have "loop_turns e a ps i c h w = ?p # persona_turns zs"
      unfolding loop_turns_def step
      using xs_turns by (simp add: persona_turns_def)
    moreover have "persona_turns zs
        = loop_turns e a ps (i + 1) (c @ fst ?r) (h @ [fst ?r]) (snd ?r)"
      unfolding loop_turns_def inner ..
    ultimately show ?thesis
      using False \<open>i < MAX_TURNS\<close> resp by simp
  qed
qed

lemma dialogue_loop_content:
  "fst (dialogue_loop e a ps i c h w) = c @ concat (map (response_text e) (loop_turns e a ps i c h w))"
proof (induction e a ps i c h w rule: dialogue_loop.induct)
  case (1 e a ps i c h w)
  let ?p = "PersonaPrompt (ps ! (i mod length ps)) (take 5000 a) h (i + 1)"
  let ?r = "generatePersonaResponse e a h (ps ! (i mod length ps)) (i + 1) w"
  have resp: "fst ?r = response_text e ?p"
    by (rule generatePersonaResponse_text)
  show ?case
  proof (cases "i < MAX_TURNS")
    case False
    then show ?thesis
      by (subst dialogue_loop.simps, subst loop_turns_rec) simp
  next
    case True
    show ?thesis
    proof (cases "fst ?r = []")
      case True
      with \<open>i < MAX_TURNS\<close> resp show ?thesis
        by (subst dialogue_loop.simps, subst loop_turns_rec) (simp add: Let_def)
    next
      case False
      with "1.IH" [OF \<open>i < MAX_TURNS\<close> refl refl] \<open>i < MAX_TURNS\<close> resp show ?thesis
        by (subst dialogue_loop.simps, subst loop_turns_rec) (simp add: Let_def)
    qed
  qed
qed

lemma loop_turns_length: "length (loop_turns e a ps i c h w) \<le> MAX_TURNS - i"
proof (induction e a ps i c h w rule: dialogue_loop.induct)
  case (1 e a ps i c h w)
  let ?p = "PersonaPrompt (ps ! (i mod length ps)) (take 5000 a) h (i + 1)"
  let ?r = "generatePersonaResponse e a h (ps ! (i mod length ps)) (i + 1) w"
  have resp: "fst ?r = response_text e ?p"
    by (rule generatePersonaResponse_text)
  show ?case
  proof (cases "i < MAX_TURNS \<and> fst ?r \<noteq> []")
    case True
    with "1.IH" [OF _ refl refl] resp show ?thesis
      by (subst loop_turns_rec) auto
  next
    case False
    with resp show ?thesis
      by (subst loop_turns_rec) auto
  qed
qed

lemma loop_turns_round_robin:
  "k < length (loop_turns e a ps i c h w) \<Longrightarrow>
     prompt_persona (loop_turns e a ps i c h w ! k) = ps ! ((i + k) mod length ps)
     \<and> prompt_turn (loop_turns e a ps i c h w ! k) = i + k + 1"
proof (induction e a ps i c h w arbitrary: k rule: dialogue_loop.induct)
  case (1 e a ps i c h w)
  let ?p = "PersonaPrompt (ps ! (i mod length ps)) (take 5000 a) h (i + 1)"
  let ?r = "generatePersonaResponse e a h (ps ! (i mod length ps)) (i + 1) w"
  let ?T' = "loop_turns e a ps (i + 1) (c @ fst ?r) (h @ [fst ?r]) (snd ?r)"
  have resp: "fst ?r = response_text e ?p"
    by (rule generatePersonaResponse_text)
  show ?case
  proof (cases "i < MAX_TURNS")
    case False
    with "1.prems" show ?thesis
      by (subst (asm) loop_turns_rec) simp
  next
    case lt: True
    show ?thesis
    proof (cases "fst ?r = []")
      case True
      with lt resp have "loop_turns e a ps i c h w = [?p]"
        by (subst loop_turns_rec) simp
      with "1.prems" show ?thesis
        by simp
    next
      case False
      with lt resp have T: "loop_turns e a ps i c h w = ?p # ?T'"
        by (subst loop_turns_rec) simp
      show ?thesis
      proof (cases k)
        case 0
        with T show ?thesis by simp
      next
        case (Suc j)
        with T "1.prems" have "j < length ?T'"
          by simp
        from "1.IH" [OF lt refl refl False this] Suc T show ?thesis
          by simp
      qed
    qed
  qed
qed

lemma loop_turns_failure_is_last:
  "k < length (loop_turns e a ps i c h w) \<Longrightarrow>
     response_text e (loop_turns e a ps i c h w ! k) = [] \<Longrightarrow>
     Suc k = length (loop_turns e a ps i c h w)"
proof (induction e a ps i c h w arbitrary: k rule: dialogue_loop.induct)
  case (1 e a ps i c h w)
  let ?p = "PersonaPrompt (ps ! (i mod length ps)) (take 5000 a) h (i + 1)"
  let ?r = "generatePersonaResponse e a h (ps ! (i mod length ps)) (i + 1) w"
  let ?T' = "loop_turns e a ps (i + 1) (c @ fst ?r) (h @ [fst ?r]) (snd ?r)"
  have resp: "fst ?r = response_text e ?p"
    by (rule generatePersonaResponse_text)
  show ?case
  proof (cases "i < MAX_TURNS")
    case False
    with "1.prems" show ?thesis
      by (subst (asm) loop_turns_rec) simp
  next
    case lt: True
    show ?thesis
    proof (cases "fst ?r = []")
      case True
      with lt resp have "loop_turns e a ps i c h w = [?p]"
        by (subst loop_turns_rec) simp
      with "1.prems" show ?thesis
        by simp
    next
      case False
      with lt resp have T: "loop_turns e a ps i c h w = ?p # ?T'"
        by (subst loop_turns_rec) simp
      show ?thesis
      proof (cases k)
        case 0
        with T "1.prems" False resp show ?thesis by simp
      next
        case (Suc j)
        with T "1.prems" have "j < length ?T'" and "response_text e (?T' ! j) = []"
          by simp_all
        from "1.IH" [OF lt refl refl False this] Suc T show ?thesis
          by simp
      qed
    qed
  qed
qed

lemma loop_turns_early_stop:
  "length (loop_turns e a ps i c h w) < MAX_TURNS - i \<Longrightarrow>
     loop_turns e a ps i c h w \<noteq> []
     \<and> response_text e (last (loop_turns e a ps i c h w)) = []"
proof (induction e a ps i c h w rule: dialogue_loop.induct)
  case (1 e a ps i c h w)
  let ?p = "PersonaPrompt (ps ! (i mod length ps)) (take 5000 a) h (i + 1)"
  let ?r = "generatePersonaResponse e a h (ps ! (i mod length ps)) (i + 1) w"
  let ?T' = "loop_turns e a ps (i + 1) (c @ fst ?r) (h @ [fst ?r]) (snd ?r)"
  have resp: "fst ?r = response_text e ?p"
    by (rule generatePersonaResponse_text)
  show ?case
  proof (cases "i < MAX_TURNS")
    case False
    with "1.prems" show ?thesis
      by simp
  next
    case lt: True
    show ?thesis
    proof (cases "fst ?r = []")
      case True
      with lt resp have "loop_turns e a ps i c h w = [?p]"
        by (subst loop_turns_rec) simp
      with True resp show ?thesis
        by simp
    next
      case False
      with lt resp have T: "loop_turns e a ps i c h w = ?p # ?T'"
        by (subst loop_turns_rec) simp
      with "1.prems" have "length ?T' < MAX_TURNS - (i + 1)"
        by simp
      from "1.IH" [OF lt refl refl False this] T show ?thesis
        by simp
    qed
  qed
qed

lemma narrator_intro_content:
  "fst (narrator_intro e a c h w) = c @ response_text e (NarratorPrompt (take 2000 a))"
  by (simp add: narrator_intro_def response_text_def Let_def
      split: ai_outcome.splits option.splits)

lemma narrator_intro_calls:
  "\<exists>xs. calls (snd (snd (narrator_intro e a c h w))) = calls w @ xs \<and> list_all quiet xs
        \<and> persona_turns xs = []"
  by (simp add: narrator_intro_def log_call_def Let_def persona_turns_def split: ai_outcome.splits)

lemma narrator_intro_stores:
  "bucket (snd (snd (narrator_intro e a c h w))) = bucket w
   \<and> scripts (snd (snd (narrator_intro e a c h w))) = scripts w"
  by (simp add: narrator_intro_def log_call_def Let_def split: ai_outcome.splits)

lemma quiet_no_put: "list_all quiet xs \<Longrightarrow> R2_put k v \<notin> set xs"
  by (induction xs) auto

lemma generate_script_post:
  "\<exists>xs. calls (snd (generate_script e a ps w)) = calls w @ xs \<and> list_all quiet xs
      \<and> bucket (snd (generate_script e a ps w)) = bucket w
      \<and> scripts (snd (generate_script e a ps w)) = scripts w
      \<and> length (persona_turns xs) \<le> MAX_TURNS
      \<and> (\<forall>k < length (persona_turns xs).
            prompt_persona (persona_turns xs ! k) = ps ! (k mod length ps)
          \<and> prompt_turn (persona_turns xs ! k) = k + 1)
      \<and> (\<forall>k < length (persona_turns xs).
            response_text e (persona_turns xs ! k) = [] \<longrightarrow> Suc k = length (persona_turns xs))
      \<and> (length (persona_turns xs) < MAX_TURNS \<longrightarrow>
            persona_turns xs \<noteq> [] \<and> response_text e (last (persona_turns xs)) = [])
      \<and> fst (generate_script e a ps w) =
          speak_open @ response_text e (NarratorPrompt (take 2000 a))
            @ concat (map (response_text e) (persona_turns xs)) @ ''</speak>''"
proof -
  obtain c1 h1 w1 where n: "narrator_intro e a speak_open [] w = (c1, h1, w1)"
    by (cases "narrator_intro e a speak_open [] w") auto
  obtain c2 h2 w2 where l: "dialogue_loop e a ps 0 c1 h1 w1 = (c2, h2, w2)"
    by (cases "dialogue_loop e a ps 0 c1 h1 w1") auto
  have g: "generate_script e a ps w = (c2 @ ''</speak>'', w2)"
    by (simp add: generate_script_def n l)
  from narrator_intro_calls [of e a speak_open "[]" w] n
  obtain xs where xs: "calls w1 = calls w @ xs" "list_all quiet xs" "persona_turns xs = []"
    by auto
  from dialogue_loop_calls [of e a ps 0 c1 h1 w1] l
  obtain ys where ys: "calls w2 = calls w1 @ ys" "list_all quiet ys"
    by auto
  let ?T = "loop_turns e a ps 0 c1 h1 w1"
  from ys l have T: "persona_turns ys = ?T"
    by (simp add: loop_turns_def new_calls_append)
  have turns: "persona_turns (xs @ ys) = ?T"
    by (simp add: persona_turns_append xs T)
  have c1: "c1 = speak_open @ response_text e (NarratorPrompt (take 2000 a))"
    using narrator_intro_content [of e a speak_open "[]" w] n by simp
  have c2: "c2 = c1 @ concat (map (response_text e) ?T)"
    using dialogue_loop_content [of e a ps 0 c1 h1 w1] l by simp
  have stores: "bucket w2 = bucket w \<and> scripts w2 = scripts w"
    using narrator_intro_stores [of e a speak_open "[]" w] n
      dialogue_loop_stores [of e a ps 0 c1 h1 w1] l by simp
  have "calls w2 = calls w @ (xs @ ys)" and "list_all quiet (xs @ ys)"
    using xs ys by simp_all
  moreover have "length ?T \<le> MAX_TURNS"
    using loop_turns_length [of e a ps 0 c1 h1 w1] by simp
  moreover have "\<forall>k < length ?T. prompt_persona (?T ! k) = ps ! (k mod length ps)
      \<and> prompt_turn (?T ! k) = k + 1"
    using loop_turns_round_robin [of _ e a ps 0 c1 h1 w1] by simp
  moreover have "\<forall>k < length ?T. response_text e (?T ! k) = [] \<longrightarrow> Suc k = length ?T"
    using loop_turns_failure_is_last [of _ e a ps 0 c1 h1 w1] by blast
  moreover have "length ?T < MAX_TURNS \<longrightarrow> ?T \<noteq> [] \<and> response_text e (last ?T) = []"
    using loop_turns_early_stop [of e a ps 0 c1 h1 w1] by simp
  ultimately show ?thesis
    unfolding g using stores c1 c2 turns
    by (intro exI [of _ "xs @ ys"]) simp
qed

lemma commit_calls:
  "\<exists>ys. calls (snd (commit e name link personas content w)) = calls w @ R2_put link content # ys
      \<and> (\<forall>k v. R2_put k v \<notin> set ys) \<and> persona_turns ys = []"
  by (cases "put_ok e"; cases "insert_result e"; cases "delete_ok e")
     (auto simp add: commit_def store_defs persona_turns_def)

lemma commit_success_calls:
  assumes "put_ok e" and "insert_result e = Some (i, t)"
  shows "fst (commit e name link personas content w) =
           Inr \<lparr>status = 201, success = True,
                result = \<lparr>script_id = i, script_name = name, script_r2_file_link = link,
                           script_created_at = t, script_personas = JSON_stringify personas\<rparr>\<rparr>"
    and "bucket (snd (commit e name link personas content w)) link = Some content"
    and "calls (snd (commit e name link personas content w)) =
             calls w @ [R2_put link content, DB_insert name link (JSON_stringify personas)]"
  using assms by (simp_all add: commit_def store_defs)

section \<open>Properties of the handler\<close>

lemma trim_example: "trim ''An article.'' = ''An article.''"
  by (simp add: trim_def is_space_def)

lemma dropWhile_trim: "dropWhile is_space (trim s) = trim s"
proof -
  let ?t = "dropWhile is_space s"
  have split: "?t = trim s @ rev (takeWhile is_space (rev ?t))"
    unfolding trim_def
    by (metis rev_append rev_rev_ident takeWhile_dropWhile_id)
  show ?thesis
  proof (cases "trim s = []")
    case True
    then show ?thesis by simp
  next
    case False
    with split have "hd (trim s) = hd ?t" and "?t \<noteq> []"
      by (metis hd_append2, metis append_is_Nil_conv)
    then have "\<not> is_space (hd (trim s))"
      by (metis hd_dropWhile)
    with False show ?thesis
      by (cases "trim s") simp_all
  qed
qed

lemma trim_trim: "trim (trim s) = trim s"
proof -
  have "rev (trim s) = dropWhile is_space (rev (dropWhile is_space s))"
    by (simp add: trim_def)
  then have "dropWhile is_space (rev (trim s)) = rev (trim s)"
    by (simp add: dropWhile_idem)
  then show ?thesis
    by (subst trim_def) (simp add: dropWhile_trim)
qed

lemmas run_defs = handle_def valid_body_def extractTextFromPdf_def trim_def is_space_def
  generate_script_def narrator_intro_def generatePersonaResponse_def MAX_TURNS_def
  commit_def store_defs r2_file_link_def show_nat_example example_defs
  JSON_stringify_def json_string_def json_escape_def new_calls_def persona_turns_def

lemma handle_generates_and_commits:
  assumes "valid_body b" and "pdf e (body_url b) = Inr text" and "trim text \<noteq> []"
  shows "handle e b w =
           commit e (body_name b) (r2_file_link (now e) (body_name b)) (body_personas b)
             (fst (generate_script e (trim text) (body_personas b) w))
             (snd (generate_script e (trim text) (body_personas b) w))"
  using assms
  by (simp add: handle_def extractTextFromPdf_def trim_trim split: prod.splits)

text \<open>
  C9. For a valid request whose document gives text, on a platform where put and insert
  succeed: the handler makes at most ten persona turns; turn \<open>k + 1\<close> goes to the persona
  at position \<open>k mod n\<close> of the \<open>n\<close> personas; a turn with an empty answer (the model threw,
  or gave no text) is the last turn, and fewer than ten turns are made only when the last
  one had an empty answer. Whatever the turns gave, the caller gets the response of
  a success, status 201 with the row, and the bucket holds the opening tag, the
  introduction, the answers of the turns made and the closing tag.
\<close>

theorem handle_partial_dialogue_success:
  fixes e :: env and b :: body and w :: world and T :: "prompt list"
  assumes "valid_body b" and "pdf e (body_url b) = Inr text" and "trim text \<noteq> []"
    and "put_ok e" and "insert_result e = Some (n, t)"
  defines "T \<equiv> persona_turns (new_calls w (snd (handle e b w)))"
  shows "length T \<le> 10
    \<and> (\<forall>k < length T.
          prompt_persona (T ! k) = body_personas b ! (k mod length (body_personas b))
        \<and> prompt_turn (T ! k) = k + 1)
    \<and> (\<forall>k < length T. response_text e (T ! k) = [] \<longrightarrow> Suc k = length T)
    \<and> (length T < 10 \<longrightarrow> T \<noteq> [] \<and> response_text e (last T) = [])
    \<and> fst (handle e b w) =
         Inr \<lparr>status = 201, success = True,
              result = \<lparr>script_id = n, script_name = body_name b,
                         script_r2_file_link = r2_file_link (now e) (body_name b),
                         script_created_at = t,
                         script_personas = JSON_stringify (body_personas b)\<rparr>\<rparr>
    \<and> bucket (snd (handle e b w)) (r2_file_link (now e) (body_name b)) =
         Some (speak_open @ response_text e (NarratorPrompt (take 2000 (trim text)))
                 @ concat (map (response_text e) T) @ ''</speak>'')"
proof -
  let ?G = "generate_script e (trim text) (body_personas b) w"
  let ?link = "r2_file_link (now e) (body_name b)"
  have h: "handle e b w = commit e (body_name b) ?link (body_personas b) (fst ?G) (snd ?G)"
    using assms(1-3) by (rule handle_generates_and_commits)
  from generate_script_post [of e "trim text" "body_personas b" w]
  obtain xs where xs: "calls (snd ?G) = calls w @ xs"
    and len: "length (persona_turns xs) \<le> MAX_TURNS"
    and rr: "\<forall>k < length (persona_turns xs).
            prompt_persona (persona_turns xs ! k) = body_personas b ! (k mod length (body_personas b))
          \<and> prompt_turn (persona_turns xs ! k) = k + 1"
    and last_fail: "\<forall>k < length (persona_turns xs).
            response_text e (persona_turns xs ! k) = [] \<longrightarrow> Suc k = length (persona_turns xs)"
    and early: "length (persona_turns xs) < MAX_TURNS \<longrightarrow>
            persona_turns xs \<noteq> [] \<and> response_text e (last (persona_turns xs)) = []"
    and content: "fst ?G = speak_open @ response_text e (NarratorPrompt (take 2000 (trim text)))
            @ concat (map (response_text e) (persona_turns xs)) @ ''</speak>''"
    by blast
  from commit_success_calls [OF assms(4,5), of "body_name b" ?link "body_personas b" "fst ?G" "snd ?G"]
  have res: "fst (handle e b w) =
         Inr \<lparr>status = 201, success = True,
              result = \<lparr>script_id = n, script_name = body_name b,
                         script_r2_file_link = ?link, script_created_at = t,
                         script_personas = JSON_stringify (body_personas b)\<rparr>\<rparr>"
    and bk: "bucket (snd (handle e b w)) ?link = Some (fst ?G)"
    and cs: "calls (snd (handle e b w)) =
        calls (snd ?G) @ [R2_put ?link (fst ?G),
          DB_insert (body_name b) ?link (JSON_stringify (body_personas b))]"
    unfolding h by simp_all
  from cs xs have "new_calls w (snd (handle e b w)) =
      xs @ [R2_put ?link (fst ?G), DB_insert (body_name b) ?link (JSON_stringify (body_personas b))]"
    by (simp add: new_calls_def)
  then have T: "T = persona_turns xs"
    unfolding T_def by (simp add: persona_turns_def)
  show ?thesis
    unfolding T using len rr last_fail early res bk content
    by (simp add: MAX_TURNS_def)
qed

theorem handle_partial_dialogue_witness:
  "valid_body body0 \<and> pdf env_talk (body_url body0) = Inr ''An article.''
   \<and> trim ''An article.'' \<noteq> [] \<and> put_ok env_talk
   \<and> insert_result env_talk = Some (1, ''2024-10-27 03:33:20'')
   \<and> map prompt_persona (persona_turns (new_calls world0 (snd (handle env_talk body0 world0))))
       = [''Ann'', ''Bob'', ''Ann'']
   \<and> map (response_text env_talk)
         (persona_turns (new_calls world0 (snd (handle env_talk body0 world0))))
       = [''<voice>Ann</voice>'', ''<voice>Bob</voice>'', []]
   \<and> fst (handle env_talk body0 world0) =
         Inr \<lparr>status = 201, success = True,
              result = \<lparr>script_id = 1, script_name = ''Talk'', script_r2_file_link = link0,
                         script_created_at = ''2024-10-27 03:33:20'',
                         script_personas = JSON_stringify [''Ann'', ''Bob'']\<rparr>\<rparr>
   \<and> bucket (snd (handle env_talk body0 world0)) link0 =
         Some (speak_open @ ''<voice>Welcome</voice><voice>Ann</voice><voice>Bob</voice></speak>'')"
proof -
  have hyps: "valid_body body0" "pdf env_talk (body_url body0) = Inr ''An article.''"
    "trim ''An article.'' \<noteq> []" "put_ok env_talk"
    "insert_result env_talk = Some (1, ''2024-10-27 03:33:20'')"
    by (simp_all add: valid_body_def body0_def env_talk_def env0_def trim_def is_space_def)
  have personas: "map prompt_persona
      (persona_turns (new_calls world0 (snd (handle env_talk body0 world0))))
       = [''Ann'', ''Bob'', ''Ann'']"
    by (simp add: run_defs env_talk_def body0_def dialogue_loop.simps)
  have texts: "map (response_text env_talk)
      (persona_turns (new_calls world0 (snd (handle env_talk body0 world0))))
       = [''<voice>Ann</voice>'', ''<voice>Bob</voice>'', []]"
    by (simp add: run_defs env_talk_def body0_def dialogue_loop.simps response_text_def)
  have narrator: "response_text env_talk (NarratorPrompt (take 2000 (trim ''An article.'')))
       = ''<voice>Welcome</voice>''"
    by (simp add: response_text_def env_talk_def)
  have link: "r2_file_link (now env_talk) (body_name body0) = link0"
    by (simp add: r2_file_link_def env_talk_def env0_def body0_def show_nat_example link0_def
        is_space_def)
  note th = handle_partial_dialogue_success [OF hyps, of world0]
  from th have "fst (handle env_talk body0 world0) =
         Inr \<lparr>status = 201, success = True,
              result = \<lparr>script_id = 1, script_name = body_name body0,
                         script_r2_file_link = r2_file_link (now env_talk) (body_name body0),
                         script_created_at = ''2024-10-27 03:33:20'',
                         script_personas = JSON_stringify (body_personas body0)\<rparr>\<rparr>"
    by blast
  then have res: "fst (handle env_talk body0 world0) =
         Inr \<lparr>status = 201, success = True,
              result = \<lparr>script_id = 1, script_name = ''Talk'', script_r2_file_link = link0,
                         script_created_at = ''2024-10-27 03:33:20'',
                         script_personas = JSON_stringify [''Ann'', ''Bob'']\<rparr>\<rparr>"
    unfolding link by (simp add: body0_def)
  from th have "bucket (snd (handle env_talk body0 world0))
        (r2_file_link (now env_talk) (body_name body0)) =
      Some (speak_open @ response_text env_talk (NarratorPrompt (take 2000 (trim ''An article.'')))
              @ concat (map (response_text env_talk)
                  (persona_turns (new_calls world0 (snd (handle env_talk body0 world0)))))
              @ ''</speak>'')"
    by blast
  then have stored: "bucket (snd (handle env_talk body0 world0)) link0 =
         Some (speak_open @ ''<voice>Welcome</voice><voice>Ann</voice><voice>Bob</voice></speak>'')"
    unfolding link texts narrator by simp
  from hyps personas texts res stored show ?thesis
    by blast
qed

lemma prefix_speak_open_generate_script:
  "prefix speak_open (fst (generate_script e a ps w))
   \<and> suffix ''</speak>'' (fst (generate_script e a ps w))"
proof -
  from generate_script_post [of e a ps w]
  obtain xs where "fst (generate_script e a ps w) =
          speak_open @ response_text e (NarratorPrompt (take 2000 a))
            @ concat (map (response_text e) (persona_turns xs)) @ ''</speak>''"
    by blast
  then show ?thesis
    by (metis append.assoc prefixI suffixI)
qed

text \<open>
  C10. Whatever the request and whatever the platform does, a script that the handler
  puts into the bucket begins with the opening \<^verbatim>\<open><speak ...>\<close> tag and ends with
  \<^verbatim>\<open></speak>\<close>.
\<close>

theorem handle_put_has_envelope:
  assumes "R2_put k v \<in> set (new_calls w (snd (handle e b w)))"
  shows "prefix speak_open v \<and> suffix ''</speak>'' v"
proof (cases "valid_body b")
  case False
  with assms show ?thesis
    by (simp add: handle_def new_calls_def)
next
  case valid: True
  show ?thesis
  proof (cases "pdf e (body_url b)")
    case (Inl msg)
    with valid assms show ?thesis
      by (simp add: handle_def extractTextFromPdf_def new_calls_def log_call_def)
  next
    case (Inr raw)
    show ?thesis
    proof (cases "trim raw = []")
      case True
      with valid Inr assms show ?thesis
        by (simp add: handle_def extractTextFromPdf_def new_calls_def)
    next
      case False
      let ?G = "generate_script e (trim raw) (body_personas b) w"
      let ?link = "r2_file_link (now e) (body_name b)"
      have h: "handle e b w = commit e (body_name b) ?link (body_personas b) (fst ?G) (snd ?G)"
        using valid Inr False by (rule handle_generates_and_commits)
      from generate_script_post [of e "trim raw" "body_personas b" w]
      obtain xs where xs: "calls (snd ?G) = calls w @ xs" and quiet: "list_all quiet xs"
        by blast
      from commit_calls [of e "body_name b" ?link "body_personas b" "fst ?G" "snd ?G"]
      obtain ys where ys: "calls (snd (handle e b w)) = calls (snd ?G) @ R2_put ?link (fst ?G) # ys"
        and no_put: "\<forall>k v. R2_put k v \<notin> set ys"
        unfolding h by blast
      from xs ys have "new_calls w (snd (handle e b w)) = xs @ R2_put ?link (fst ?G) # ys"
        by (simp add: new_calls_def)
      with assms quiet_no_put [OF quiet, of k v] no_put have "v = fst ?G"
        by auto
      with prefix_speak_open_generate_script [of e "trim raw" "body_personas b" w]
      show ?thesis
        by simp
    qed
  qed
qed

theorem handle_put_has_envelope_witness:
  "R2_put link0 (speak_open @ ''</speak>'') \<in> set (new_calls world0 (snd (handle env0 body0 world0)))
   \<and> prefix speak_open (speak_open @ ''</speak>'')
   \<and> suffix ''</speak>'' (speak_open @ ''</speak>'')"
proof -
  have put: "R2_put link0 (speak_open @ ''</speak>'')
      \<in> set (new_calls world0 (snd (handle env0 body0 world0)))"
    by (simp add: run_defs body0_def dialogue_loop.simps)
  from handle_put_has_envelope [OF put] put show ?thesis
    by blast
qed

end
